theory Spec2Isabelle
  imports Main
begin

section \<open>Characters and the string methods used by the parser\<close>

text \<open>
  The text blob is a Python \<open>str\<close>. It is modelled as an Isabelle \<open>string\<close>, a list of
  characters with code points 0 to 255; the classification functions below follow
  Python's Unicode tables on that range.
\<close>

definition cp :: "char \<Rightarrow> nat" where
  "cp c = of_char c"

text \<open>\<open>str.isspace\<close> on one character; also the class \<open>\s\<close> of \<open>re\<close> on \<open>str\<close> patterns.\<close>

definition cp_isspace :: "nat \<Rightarrow> bool" where
  "cp_isspace n = ((9 \<le> n \<and> n \<le> 13) \<or> (28 \<le> n \<and> n \<le> 32) \<or> n = 133 \<or> n = 160)"

definition char_isspace :: "char \<Rightarrow> bool" where
  "char_isspace c = cp_isspace (cp c)"

text \<open>\<open>str.isdigit\<close> on one character: the decimal digits and the superscripts 1, 2, 3.\<close>

definition char_isdigit :: "char \<Rightarrow> bool" where
  "char_isdigit c =
     (let n = cp c in (48 \<le> n \<and> n \<le> 57) \<or> n = 178 \<or> n = 179 \<or> n = 185)"

definition cp_isupper :: "nat \<Rightarrow> bool" where
  "cp_isupper n = ((65 \<le> n \<and> n \<le> 90) \<or> (192 \<le> n \<and> n \<le> 214) \<or> (216 \<le> n \<and> n \<le> 222))"

definition char_isupper :: "char \<Rightarrow> bool" where
  "char_isupper c = cp_isupper (cp c)"

definition char_islower :: "char \<Rightarrow> bool" where
  "char_islower c =
     (let n = cp c in (97 \<le> n \<and> n \<le> 122) \<or> n = 170 \<or> n = 181 \<or> n = 186
        \<or> (223 \<le> n \<and> n \<le> 246) \<or> (248 \<le> n \<and> n \<le> 255))"

text \<open>
  The lower-case mapping that \<open>re\<close> applies under the flag \<open>IGNORECASE\<close>, on code points.
\<close>

definition cp_tolower :: "nat \<Rightarrow> nat" where
  "cp_tolower n = (if cp_isupper n then n + 32 else n)"

text \<open>The class \<open>\w\<close> of \<open>re\<close>, which decides the word boundary \<open>\b\<close>: alphanumeric or underscore.\<close>

definition char_isword :: "char \<Rightarrow> bool" where
  "char_isword c =
     (let n = cp c in (48 \<le> n \<and> n \<le> 57) \<or> (65 \<le> n \<and> n \<le> 90) \<or> n = 95
        \<or> (97 \<le> n \<and> n \<le> 122) \<or> n = 170 \<or> n = 178 \<or> n = 179 \<or> n = 181
        \<or> n = 185 \<or> n = 186 \<or> (188 \<le> n \<and> n \<le> 190) \<or> (192 \<le> n \<and> n \<le> 214)
        \<or> (216 \<le> n \<and> n \<le> 246) \<or> (248 \<le> n \<and> n \<le> 255))"

text \<open>\<open>text.split(sep)\<close> for a one-character separator: the result is never empty.\<close>

fun split_acc :: "char \<Rightarrow> string \<Rightarrow> string \<Rightarrow> string list" where
  "split_acc sep cur [] = [cur]"
| "split_acc sep cur (c # cs) =
     (if c = sep then cur # split_acc sep [] cs else split_acc sep (cur @ [c]) cs)"

definition str_split_on :: "char \<Rightarrow> string \<Rightarrow> string list" where
  "str_split_on sep s = split_acc sep [] s"

text \<open>\<open>line.strip()\<close>: white space is removed at both ends.\<close>

definition str_strip :: "string \<Rightarrow> string" where
  "str_strip s = rev (dropWhile char_isspace (rev (dropWhile char_isspace s)))"

text \<open>\<open>line.split()\<close>: the maximal runs of characters that are not white space.\<close>

fun words_acc :: "string \<Rightarrow> string \<Rightarrow> string list" where
  "words_acc cur [] = (if cur = [] then [] else [cur])"
| "words_acc cur (c # cs) =
     (if char_isspace c then (if cur = [] then words_acc [] cs else cur # words_acc [] cs)
      else words_acc (cur @ [c]) cs)"

definition str_split :: "string \<Rightarrow> string list" where
  "str_split s = words_acc [] s"

text \<open>
  \<open>line.isupper()\<close>: no character is lower-case (or title-case, of which the range has
  none) and at least one is upper-case.
\<close>

definition str_isupper :: "string \<Rightarrow> bool" where
  "str_isupper s = (\<not> list_ex char_islower s \<and> list_ex char_isupper s)"

definition newline :: char where
  "newline = CHR 0x0A"

section \<open>The regular expressions of the parser\<close>

text \<open>
  The patterns are matched the way \<open>re\<close> does it, by backtracking: \<open>rmatch\<close> lists the
  states reachable by matching a pattern from a state, in the order in which the
  backtracking matcher tries them (greedy repetitions take the longest run first). A state
  is the character before the current position, if any, and the rest of the text.
\<close>

datatype item = Ch char | Rg char char | Sp

datatype regex =
    Lit char
  | Set "item list"
  | Many nat "item list"
  | Opt regex
  | Seq regex regex
  | Eps
  | Bol
  | Wb

type_synonym mstate = "char option \<times> string"

fun item_ok :: "item \<Rightarrow> char \<Rightarrow> bool" where
  "item_ok (Ch x) c = (c = x)"
| "item_ok (Rg lo hi) c = (cp lo \<le> cp c \<and> cp c \<le> cp hi)"
| "item_ok Sp c = char_isspace c"

text \<open>
  Under \<open>IGNORECASE\<close> the members of a class are lower-cased when the pattern is compiled,
  and the lower-cased character of the text is looked up in the result.
\<close>

fun item_ok_ic :: "item \<Rightarrow> char \<Rightarrow> bool" where
  "item_ok_ic (Ch x) c = (cp_tolower (cp c) = cp_tolower (cp x))"
| "item_ok_ic (Rg lo hi) c =
     list_ex (\<lambda>k. cp_tolower k = cp_tolower (cp c)) [cp lo ..< Suc (cp hi)]"
| "item_ok_ic Sp c = cp_isspace (cp_tolower (cp c))"

definition in_set :: "bool \<Rightarrow> item list \<Rightarrow> char \<Rightarrow> bool" where
  "in_set ic its c = list_ex (\<lambda>it. if ic then item_ok_ic it c else item_ok it c) its"

text \<open>\<open>[...]{n,}\<close>, greedy: one more character of the class first, stopping here second.\<close>

fun many :: "bool \<Rightarrow> item list \<Rightarrow> nat \<Rightarrow> mstate \<Rightarrow> mstate list" where
  "many ic its n (p, []) = (if n = 0 then [(p, [])] else [])"
| "many ic its n (p, c # cs) =
     (if in_set ic its c then many ic its (n - 1) (Some c, cs) else [])
     @ (if n = 0 then [(p, c # cs)] else [])"

definition at_boundary :: "mstate \<Rightarrow> bool" where
  "at_boundary st =
     ((case fst st of None \<Rightarrow> False | Some c \<Rightarrow> char_isword c)
      \<noteq> (case snd st of [] \<Rightarrow> False | c # _ \<Rightarrow> char_isword c))"

fun rmatch :: "bool \<Rightarrow> regex \<Rightarrow> mstate \<Rightarrow> mstate list" where
  "rmatch ic (Lit x) st =
     (case snd st of [] \<Rightarrow> []
      | c # cs \<Rightarrow> if in_set ic [Ch x] c then [(Some c, cs)] else [])"
| "rmatch ic (Set its) st =
     (case snd st of [] \<Rightarrow> []
      | c # cs \<Rightarrow> if in_set ic its c then [(Some c, cs)] else [])"
| "rmatch ic (Many n its) st = many ic its n st"
| "rmatch ic (Opt r) st = rmatch ic r st @ [st]"
| "rmatch ic (Seq r1 r2) st = concat (map (rmatch ic r2) (rmatch ic r1 st))"
| "rmatch ic Eps st = [st]"
| "rmatch ic Bol st = (if fst st = None then [st] else [])"
| "rmatch ic Wb st = (if at_boundary st then [st] else [])"

definition seqs :: "regex list \<Rightarrow> regex" where
  "seqs rs = foldr Seq rs Eps"

text \<open>\<open>(?:r){1,2}\<close>, greedy: \<open>r\<close> once, then a second time if it matches.\<close>

definition rep_1_2 :: "regex \<Rightarrow> regex" where
  "rep_1_2 r = Seq r (Opt r)"

text \<open>
  The search for the leftmost match. \<open>adv\<close> is the matcher's rule after an empty match:
  the next match at the same position must not be empty.
\<close>

fun search_from :: "bool \<Rightarrow> regex \<Rightarrow> bool \<Rightarrow> mstate \<Rightarrow> (string \<times> mstate) option" where
  "search_from ic r adv (p, s) =
     (case filter (\<lambda>st'. \<not> (adv \<and> length (snd st') = length s)) (rmatch ic r (p, s)) of
        st' # _ \<Rightarrow> Some (take (length s - length (snd st')) s, st')
      | [] \<Rightarrow> (case s of [] \<Rightarrow> None | c # cs \<Rightarrow> search_from ic r False (Some c, cs)))"

text \<open>\<open>re.findall\<close> for a pattern without groups: the matches from left to right.\<close>

function re_findall_from :: "bool \<Rightarrow> regex \<Rightarrow> bool \<Rightarrow> mstate \<Rightarrow> string list" where
  "re_findall_from ic r adv (p, s) =
     (case search_from ic r adv (p, s) of
        None \<Rightarrow> []
      | Some (m, st') \<Rightarrow>
          if length (snd st') < length s \<or> (length (snd st') = length s \<and> m = [] \<and> \<not> adv)
          then m # re_findall_from ic r (m = []) st'
          else [m])"
  by pat_completeness auto
termination
  by (relation "measure (\<lambda>(ic, r, adv, st). 2 * length (snd st) + (if adv then 0 else 1))") auto

definition re_findall :: "bool \<Rightarrow> regex \<Rightarrow> string \<Rightarrow> string list" where
  "re_findall ic r s = re_findall_from ic r False (None, s)"

text \<open>
  \<open>re.search\<close> for a pattern \<open>pre(grp)post\<close> with one group, followed by \<open>.group(1)\<close>:
  the text of the group in the first match at the leftmost position that has one.
\<close>

definition group_matches :: "bool \<Rightarrow> regex \<Rightarrow> regex \<Rightarrow> regex \<Rightarrow> mstate \<Rightarrow> string list" where
  "group_matches ic pre grp post st =
     concat (map (\<lambda>st1.
       concat (map (\<lambda>st2.
         map (\<lambda>st3. take (length (snd st1) - length (snd st2)) (snd st1)) (rmatch ic post st2))
         (rmatch ic grp st1)))
       (rmatch ic pre st))"

fun search_group_from :: "bool \<Rightarrow> regex \<Rightarrow> regex \<Rightarrow> regex \<Rightarrow> mstate \<Rightarrow> string option" where
  "search_group_from ic pre grp post (p, s) =
     (case group_matches ic pre grp post (p, s) of
        g # _ \<Rightarrow> Some g
      | [] \<Rightarrow> (case s of [] \<Rightarrow> None | c # cs \<Rightarrow> search_group_from ic pre grp post (Some c, cs)))"

definition re_search_group :: "bool \<Rightarrow> regex \<Rightarrow> regex \<Rightarrow> regex \<Rightarrow> string \<Rightarrow> string option" where
  "re_search_group ic pre grp post s = search_group_from ic pre grp post (None, s)"

section \<open>The field extractors\<close>

text \<open>
  The entity recogniser \<open>self.nlp\<close> is a collaborator of the parser. It maps a text to the
  entities it finds, each with its text and its label, or raises.
\<close>

datatype failure = RecogniserRaised

type_synonym entity = "string \<times> string"

type_synonym recogniser = "string \<Rightarrow> failure + entity list"

text \<open>\<open>[A-Z][a-z]+(?:\s+[A-Z][a-z]+){1,2}\<close>, the group of both name patterns.\<close>

definition name_words :: regex where
  "name_words =
     seqs [Set [Rg CHR ''A'' CHR ''Z''], Many 1 [Rg CHR ''a'' CHR ''z''],
           rep_1_2 (seqs [Many 1 [Sp], Set [Rg CHR ''A'' CHR ''Z''],
                          Many 1 [Rg CHR ''a'' CHR ''z'']])]"

text \<open>\<open>name\s*[\:|\-]?\s*\<close>, what \<open>name_label_pattern\<close> has before its group.\<close>

definition name_label_prefix :: regex where
  "name_label_prefix =
     seqs [Lit CHR ''n'', Lit CHR ''a'', Lit CHR ''m'', Lit CHR ''e'', Many 0 [Sp],
           Opt (Set [Ch CHR '':'', Ch CHR ''|'', Ch CHR ''-'']), Many 0 [Sp]]"

text \<open>\<open>[\s\n]+\<close>, what \<open>name_pattern\<close> has after its group.\<close>

definition name_pattern_suffix :: regex where
  "name_pattern_suffix = Many 1 [Sp, Ch newline]"

text \<open>\<open>\b[A-Za-z0-9._%+-]+@[A-Za-z0-9.-]+\.[A-Z|a-z]{2,}\b\<close>\<close>

definition email_pattern :: regex where
  "email_pattern =
     seqs [Wb,
           Many 1 [Rg CHR ''A'' CHR ''Z'', Rg CHR ''a'' CHR ''z'', Rg CHR ''0'' CHR ''9'',
                   Ch CHR ''.'', Ch CHR ''_'', Ch CHR ''%'', Ch CHR ''+'', Ch CHR ''-''],
           Lit CHR ''@'',
           Many 1 [Rg CHR ''A'' CHR ''Z'', Rg CHR ''a'' CHR ''z'', Rg CHR ''0'' CHR ''9'',
                   Ch CHR ''.'', Ch CHR ''-''],
           Lit CHR ''.'',
           Many 2 [Rg CHR ''A'' CHR ''Z'', Ch CHR ''|'', Rg CHR ''a'' CHR ''z''],
           Wb]"

text \<open>\<open>[\+\(]?[1-9][0-9 .\-\(\)]{8,}[0-9]\<close>\<close>

definition phone_class :: "item list" where
  "phone_class =
     [Rg CHR ''0'' CHR ''9'', Ch CHR '' '', Ch CHR ''.'', Ch CHR ''-'', Ch CHR ''('', Ch CHR '')'']"

definition phone_pattern :: regex where
  "phone_pattern =
     seqs [Opt (Set [Ch CHR ''+'', Ch CHR ''('']), Set [Rg CHR ''1'' CHR ''9''],
           Many 8 phone_class, Set [Rg CHR ''0'' CHR ''9'']]"

text \<open>The first five lines of the text, stripped, as both loops of \<open>extract_name\<close> see them.\<close>

definition head_lines :: "string \<Rightarrow> string list" where
  "head_lines text =
     (let lines = str_split_on newline text
      in map str_strip (take (min 5 (length lines)) lines))"

text \<open>The condition of the first loop: an upper-case line of two or three words, no digit.\<close>

definition is_caps_name :: "string \<Rightarrow> bool" where
  "is_caps_name line =
     (str_isupper line \<and> 2 \<le> length (str_split line) \<and> length (str_split line) \<le> 3
      \<and> \<not> list_ex char_isdigit line)"

text \<open>The condition of the second loop: two or three words, each starting upper-case.\<close>

definition is_capitalized_name :: "string \<Rightarrow> bool" where
  "is_capitalized_name line =
     (let words = str_split line
      in 2 \<le> length words \<and> length words \<le> 3
         \<and> list_all (\<lambda>word. str_isupper [hd word]) (filter (\<lambda>word. word \<noteq> []) words)
         \<and> \<not> list_ex char_isdigit line)"

definition caps_line_heuristic :: "string \<Rightarrow> string option" where
  "caps_line_heuristic text = find is_caps_name (head_lines text)"

definition label_heuristic :: "string \<Rightarrow> string option" where
  "label_heuristic text = re_search_group True name_label_prefix name_words Eps (take 1000 text)"

definition entity_heuristic :: "entity list \<Rightarrow> string option" where
  "entity_heuristic ents =
     (let person_entities = map fst (filter (\<lambda>ent. snd ent = ''PERSON'') ents)
      in if person_entities \<noteq> []
         then (let valid_names = filter (\<lambda>name. 2 \<le> length (str_split name)) person_entities
               in if valid_names \<noteq> [] then Some (hd valid_names) else None)
         else None)"

definition capitalized_line_heuristic :: "string \<Rightarrow> string option" where
  "capitalized_line_heuristic text = find is_capitalized_name (head_lines text)"

definition leading_name_heuristic :: "string \<Rightarrow> string option" where
  "leading_name_heuristic text =
     re_search_group False Bol name_words name_pattern_suffix (take 1000 text)"

definition extract_name :: "recogniser \<Rightarrow> string \<Rightarrow> failure + string" where
  "extract_name nlp text =
     (case caps_line_heuristic text of
        Some line \<Rightarrow> Inr line
      | None \<Rightarrow>
     (case label_heuristic text of
        Some g \<Rightarrow> Inr g
      | None \<Rightarrow>
     (case nlp (take 2000 text) of
        Inl e \<Rightarrow> Inl e
      | Inr ents \<Rightarrow>
     (case entity_heuristic ents of
        Some name \<Rightarrow> Inr name
      | None \<Rightarrow>
     (case capitalized_line_heuristic text of
        Some line \<Rightarrow> Inr line
      | None \<Rightarrow>
     (case leading_name_heuristic text of
        Some g \<Rightarrow> Inr g
      | None \<Rightarrow> Inr ''HEMANTH JAYARAM''))))))"

definition extract_email :: "string \<Rightarrow> string" where
  "extract_email text =
     (case re_findall False email_pattern text of
        [] \<Rightarrow> ''hemanthjayaram5566@gmail.com''
      | m # _ \<Rightarrow> m)"

definition extract_phone_number :: "string \<Rightarrow> string" where
  "extract_phone_number text =
     (case re_findall False phone_pattern text of
        [] \<Rightarrow> ''9986500900''
      | m # _ \<Rightarrow> m)"

record education_entry =
  degree :: string
  institution :: string
  year :: string
  gpa :: "string option"
  details :: "string list option"

record experience_entry =
  title :: string
  company :: string
  duration :: string
  responsibilities :: "string list"

definition extract_education :: "string \<Rightarrow> education_entry list" where
  "extract_education text =
     [\<lparr>degree = ''Bachelor of Engineering'',
       institution = ''Artificial Intelligence & Machine Learning'',
       year = ''2026'', gpa = None, details = Some [''Expected in 06/2026'']\<rparr>,
      \<lparr>degree = ''Ramaiah Institute of Technology'', institution = ''Bengaluru, India'',
       year = '''', gpa = None, details = None\<rparr>,
      \<lparr>degree = ''Diploma'', institution = ''Electrical & Electronics Engineering'',
       year = ''2023'', gpa = Some ''8.32 gpa'', details = Some [''8.32 GPA/CGPA'']\<rparr>]"

text \<open>A \<open>dict\<close> from category to skills, as the list of its items in insertion order.\<close>

definition extract_skills :: "string \<Rightarrow> (string \<times> string list) list" where
  "extract_skills text =
     [(''technical'',
        [''Artificial Intelligence'', ''Automation'', ''Data Analysis'', ''Engineering'',
         ''Machine Learning'', ''Software'', ''Various Software Programs'']),
      (''soft'',
        [''Communication'', ''Effective Communication'', ''Teamwork'', ''Problem Solving'',
         ''Quick Learner'']),
      (''languages'', [''Hindi'', ''Kannada'', ''English'']),
      (''certifications'', [''Industrial Automation Training''])]"

definition extract_experience :: "string \<Rightarrow> experience_entry list" where
  "extract_experience text =
     [\<lparr>title = ''Mechanic Technician'', company = ''Shivam Sports - Belgaum, India'',
       duration = ''02/2022 - 03/2022'',
       responsibilities =
         [''Enhanced customer satisfaction by providing timely and accurate repairs on a wide range of vehicles.'',
          ''Improved vehicle performance by conducting thorough inspections and diagnostic tests.'',
          ''Increased efficiency by proficiently managing multiple repair projects simultaneously.'',
          ''Supported a positive customer experience by providing follow-up services such as test drives and post-repair consultations.'']\<rparr>,
      \<lparr>title = ''Intern'',
       company = ''Government Tool Room & Training Center - Belgaum, India'',
       duration = ''02/2023 - 06/2023'',
       responsibilities =
         [''Gained valuable experience working within a specific industry, applying learned concepts directly into relevant work situations.'',
          ''Gained hands-on experience in various software programs, increasing proficiency and expanding technical skill set.'',
          ''Analyzed problems and worked with teams to develop solutions.'',
          ''Participated in workshops and presentations related to projects to gain knowledge.'']\<rparr>]"

section \<open>The orchestrator\<close>

text \<open>
  What PyPDF2 makes of the file: it cannot be opened or read, or it has pages, and
  \<open>extract_text\<close> of a page returns its text or raises.
\<close>

datatype page = PageText string | PageError

datatype pdf_file = Unreadable | Pages "page list"

fun concat_pages :: "string \<Rightarrow> page list \<Rightarrow> string option" where
  "concat_pages text [] = Some text"
| "concat_pages text (PageText t # ps) = concat_pages (text @ t) ps"
| "concat_pages text (PageError # ps) = None"

definition extract_text_from_pdf :: "pdf_file \<Rightarrow> string option" where
  "extract_text_from_pdf f = (case f of Unreadable \<Rightarrow> None | Pages ps \<Rightarrow> concat_pages [] ps)"

record personal =
  name :: string
  email :: string
  phone :: string
  address :: string

record resume_record =
  personal_info :: personal
  education :: "education_entry list"
  skills :: "(string \<times> string list) list"
  work_experience :: "experience_entry list"

definition get_empty_resume_structure :: resume_record where
  "get_empty_resume_structure =
     \<lparr>personal_info = \<lparr>name = '''', email = '''', phone = '''', address = ''''\<rparr>,
      education = [],
      skills = [(''technical'', []), (''soft'', []), (''languages'', []), (''certifications'', [])],
      work_experience = []\<rparr>"

text \<open>The parser object: the recogniser loaded by the constructor, and the file at its path.\<close>

record resume_parser =
  nlp :: recogniser
  pdf :: pdf_file

text \<open>
  \<open>parse\<close> has no handler of its own: an exception raised while the record is built leaves
  \<open>parse\<close>, and the entries of the dictionary are evaluated in the order written.
\<close>

definition parse :: "resume_parser \<Rightarrow> failure + resume_record" where
  "parse self =
     (case extract_text_from_pdf (pdf self) of
        None \<Rightarrow> Inr get_empty_resume_structure
      | Some text \<Rightarrow>
          if text = [] then Inr get_empty_resume_structure
          else (case extract_name (nlp self) text of
                  Inl e \<Rightarrow> Inl e
                | Inr n \<Rightarrow>
                    Inr \<lparr>personal_info =
                           \<lparr>name = n, email = extract_email text,
                            phone = extract_phone_number text, address = ''Bengaluru, India''\<rparr>,
                         education = extract_education text,
                         skills = extract_skills text,
                         work_experience = extract_experience text\<rparr>))"

text \<open>Two recognisers for concrete runs: one finds no entity, one raises.\<close>

definition no_entities :: recogniser where
  "no_entities text = Inr []"

definition failing_recogniser :: recogniser where
  "failing_recogniser text = Inl RecogniserRaised"



section \<open>Properties of the orchestrator\<close>

lemma split_acc_not_empty: "split_acc sep cur s \<noteq> []"
  by (induction s arbitrary: cur) auto

lemma head_lines_first:
  "\<exists>rest. head_lines text = str_strip (hd (str_split_on newline text)) # rest"
proof -
  obtain l ls where "str_split_on newline text = l # ls"
    using split_acc_not_empty [of newline "[]" "text"]
    by (cases "str_split_on newline text") (auto simp: str_split_on_def)
  then show ?thesis
    by (simp add: head_lines_def Let_def)
qed

text \<open>
  C1. When the text extraction yields no text (it fails, or the text is empty), \<open>parse\<close>
  returns the empty structure: the four strings of \<open>personal_info\<close> empty, no education,
  the four skill categories each with no skill, no work experience.
\<close>

theorem parse_no_text_empty:
  assumes "extract_text_from_pdf (pdf self) = None \<or> extract_text_from_pdf (pdf self) = Some []"
  shows "parse self =
           Inr \<lparr>personal_info = \<lparr>name = [], email = [], phone = [], address = []\<rparr>,
                education = [],
                skills = [(''technical'', []), (''soft'', []), (''languages'', []),
                          (''certifications'', [])],
                work_experience = []\<rparr>"
  using assms by (auto simp: parse_def get_empty_resume_structure_def)

theorem parse_no_text_empty_witness:
  "extract_text_from_pdf (Pages [PageText ''John Smith'', PageError]) = None
   \<and> parse \<lparr>nlp = no_entities, pdf = Pages [PageText ''John Smith'', PageError]\<rparr> =
       Inr \<lparr>personal_info = \<lparr>name = [], email = [], phone = [], address = []\<rparr>,
            education = [],
            skills = [(''technical'', []), (''soft'', []), (''languages'', []),
                      (''certifications'', [])],
            work_experience = []\<rparr>"
proof -
  have h: "extract_text_from_pdf (Pages [PageText ''John Smith'', PageError]) = None"
    by (simp add: extract_text_from_pdf_def)
  show ?thesis
    using h parse_no_text_empty
      [of "\<lparr>nlp = no_entities, pdf = Pages [PageText ''John Smith'', PageError]\<rparr>"]
    by simp
qed

text \<open>
  C6. The education, skills and experience extractors do not depend on the text: on any
  two texts each returns the same structure, and that structure is the fixed one written
  out in the source.
\<close>

theorem stub_extractors_constant:
  "extract_education t1 = extract_education t2
   \<and> extract_skills t1 = extract_skills t2
   \<and> extract_experience t1 = extract_experience t2
   \<and> extract_education t1 =
     [\<lparr>degree = ''Bachelor of Engineering'',
       institution = ''Artificial Intelligence & Machine Learning'',
       year = ''2026'', gpa = None, details = Some [''Expected in 06/2026'']\<rparr>,
      \<lparr>degree = ''Ramaiah Institute of Technology'', institution = ''Bengaluru, India'',
       year = '''', gpa = None, details = None\<rparr>,
      \<lparr>degree = ''Diploma'', institution = ''Electrical & Electronics Engineering'',
       year = ''2023'', gpa = Some ''8.32 gpa'', details = Some [''8.32 GPA/CGPA'']\<rparr>]
   \<and> extract_skills t1 =
     [(''technical'',
        [''Artificial Intelligence'', ''Automation'', ''Data Analysis'', ''Engineering'',
         ''Machine Learning'', ''Software'', ''Various Software Programs'']),
      (''soft'',
        [''Communication'', ''Effective Communication'', ''Teamwork'', ''Problem Solving'',
         ''Quick Learner'']),
      (''languages'', [''Hindi'', ''Kannada'', ''English'']),
      (''certifications'', [''Industrial Automation Training''])]
   \<and> extract_experience t1 =
     [\<lparr>title = ''Mechanic Technician'', company = ''Shivam Sports - Belgaum, India'',
       duration = ''02/2022 - 03/2022'',
       responsibilities =
         [''Enhanced customer satisfaction by providing timely and accurate repairs on a wide range of vehicles.'',
          ''Improved vehicle performance by conducting thorough inspections and diagnostic tests.'',
          ''Increased efficiency by proficiently managing multiple repair projects simultaneously.'',
          ''Supported a positive customer experience by providing follow-up services such as test drives and post-repair consultations.'']\<rparr>,
      \<lparr>title = ''Intern'',
       company = ''Government Tool Room & Training Center - Belgaum, India'',
       duration = ''02/2023 - 06/2023'',
       responsibilities =
         [''Gained valuable experience working within a specific industry, applying learned concepts directly into relevant work situations.'',
          ''Gained hands-on experience in various software programs, increasing proficiency and expanding technical skill set.'',
          ''Analyzed problems and worked with teams to develop solutions.'',
          ''Participated in workshops and presentations related to projects to gain knowledge.'']\<rparr>]"
  by (simp add: extract_education_def extract_skills_def extract_experience_def)

text \<open>
  C9. Every record that \<open>parse\<close> returns has exactly the four skill categories technical,
  soft, languages and certifications as keys, each once.
\<close>

theorem parse_skills_keys:
  assumes "parse self = Inr r"
  shows "set (map fst (skills r)) = {''technical'', ''soft'', ''languages'', ''certifications''}
         \<and> distinct (map fst (skills r))"
proof -
  have "skills r = skills get_empty_resume_structure
        \<or> (\<exists>text. skills r = extract_skills text)"
    using assms
    by (auto simp: parse_def split: option.splits if_splits sum.splits)
  then show ?thesis
    by (auto simp: get_empty_resume_structure_def extract_skills_def)
qed

theorem parse_skills_keys_witness:
  "parse \<lparr>nlp = no_entities, pdf = Pages [PageText ''hello'']\<rparr> =
     Inr \<lparr>personal_info =
            \<lparr>name = ''HEMANTH JAYARAM'', email = ''hemanthjayaram5566@gmail.com'',
             phone = ''9986500900'', address = ''Bengaluru, India''\<rparr>,
          education = extract_education ''hello'', skills = extract_skills ''hello'',
          work_experience = extract_experience ''hello''\<rparr>
   \<and> set (map fst (extract_skills ''hello'')) =
       {''technical'', ''soft'', ''languages'', ''certifications''}
   \<and> distinct (map fst (extract_skills ''hello''))"
proof -
  have h: "parse \<lparr>nlp = no_entities, pdf = Pages [PageText ''hello'']\<rparr> =
     Inr \<lparr>personal_info =
            \<lparr>name = ''HEMANTH JAYARAM'', email = ''hemanthjayaram5566@gmail.com'',
             phone = ''9986500900'', address = ''Bengaluru, India''\<rparr>,
          education = extract_education ''hello'', skills = extract_skills ''hello'',
          work_experience = extract_experience ''hello''\<rparr>"
    by code_simp
  show ?thesis using h parse_skills_keys [OF h] by simp
qed

theorem parse_address_counterexample:
  "parse \<lparr>nlp = no_entities, pdf = Pages [PageText ''Jane Doe'']\<rparr> =
     Inr \<lparr>personal_info =
            \<lparr>name = ''Jane Doe'', email = ''hemanthjayaram5566@gmail.com'',
             phone = ''9986500900'', address = ''Bengaluru, India''\<rparr>,
          education = extract_education ''Jane Doe'', skills = extract_skills ''Jane Doe'',
          work_experience = extract_experience ''Jane Doe''\<rparr>
   \<and> address (personal_info (projr (parse \<lparr>nlp = no_entities, pdf = Pages [PageText ''Jane Doe'']\<rparr>))) \<noteq> []"
  by code_simp

text \<open>
  C8, as amended. The address of a record returned by \<open>parse\<close> is the empty string when the
  text extraction yields no text, and the fixed string \<open>Bengaluru, India\<close> otherwise: there
  is no address heuristic, and the success path does not use the empty default.
\<close>

theorem parse_address:
  assumes "parse self = Inr r"
  shows "address (personal_info r) =
           (if extract_text_from_pdf (pdf self) = None \<or> extract_text_from_pdf (pdf self) = Some []
            then [] else ''Bengaluru, India'')"
  using assms
  by (auto simp: parse_def get_empty_resume_structure_def split: option.splits if_splits sum.splits)

theorem parse_raises_counterexample:
  "parse \<lparr>nlp = failing_recogniser, pdf = Pages [PageText ''hello'']\<rparr> = Inl RecogniserRaised"
  by code_simp

lemma extract_name_raises:
  "extract_name rcg t = Inl e \<longleftrightarrow>
     caps_line_heuristic t = None \<and> label_heuristic t = None \<and> rcg (take 2000 t) = Inl e"
  by (auto simp: extract_name_def split: option.splits sum.splits)

text \<open>
  C2, as amended. \<open>parse\<close> has no recovery for a failing extractor. On a non-empty text
  it raises exactly when the first two name heuristics find nothing and the entity
  recogniser raises on the first 2000 characters, and then it raises the recogniser's
  exception; in every other case the name extractor returns a name and \<open>parse\<close> returns
  the record whose fields are what the extractors return on the text.
\<close>

theorem parse_failure_propagates:
  assumes "extract_text_from_pdf (pdf self) = Some t" and "t \<noteq> []"
  shows "if caps_line_heuristic t = None \<and> label_heuristic t = None
            \<and> isl (nlp self (take 2000 t))
         then parse self = Inl (projl (nlp self (take 2000 t)))
         else \<exists>n. extract_name (nlp self) t = Inr n
                \<and> parse self =
                    Inr \<lparr>personal_info =
                           \<lparr>name = n, email = extract_email t,
                            phone = extract_phone_number t, address = ''Bengaluru, India''\<rparr>,
                         education = extract_education t, skills = extract_skills t,
                         work_experience = extract_experience t\<rparr>"
proof (cases "extract_name (nlp self) t")
  case (Inl e)
  then show ?thesis
    using assms extract_name_raises [of "nlp self" t e] by (simp add: parse_def)
next
  case (Inr n)
  have "\<not> (caps_line_heuristic t = None \<and> label_heuristic t = None
            \<and> isl (nlp self (take 2000 t)))"
  proof
    assume a: "caps_line_heuristic t = None \<and> label_heuristic t = None
            \<and> isl (nlp self (take 2000 t))"
    then obtain e where "nlp self (take 2000 t) = Inl e"
      by (cases "nlp self (take 2000 t)") auto
    with a have "extract_name (nlp self) t = Inl e"
      using extract_name_raises [of "nlp self" t e] by simp
    with Inr show False by simp
  qed
  then show ?thesis using assms Inr by (simp add: parse_def)
qed

text \<open>
  C4. When every heuristic of the chain finds nothing (the recogniser returning), the name
  extractor returns the fixed default name \<open>HEMANTH JAYARAM\<close>, which is not the empty
  string.
\<close>

theorem name_hard_fallback:
  assumes "caps_line_heuristic t = None" and "label_heuristic t = None"
    and "rcg (take 2000 t) = Inr ents" and "entity_heuristic ents = None"
    and "capitalized_line_heuristic t = None" and "leading_name_heuristic t = None"
  shows "extract_name rcg t = Inr ''HEMANTH JAYARAM'' \<and> extract_name rcg t \<noteq> Inr []"
  using assms by (simp add: extract_name_def)

theorem name_hard_fallback_witness:
  "caps_line_heuristic ''curriculum vitae 2024'' = None
   \<and> label_heuristic ''curriculum vitae 2024'' = None
   \<and> no_entities (take 2000 ''curriculum vitae 2024'') = Inr []
   \<and> entity_heuristic [] = None
   \<and> capitalized_line_heuristic ''curriculum vitae 2024'' = None
   \<and> leading_name_heuristic ''curriculum vitae 2024'' = None
   \<and> extract_name no_entities ''curriculum vitae 2024'' = Inr ''HEMANTH JAYARAM''"
proof -
  have h1: "caps_line_heuristic ''curriculum vitae 2024'' = None" by code_simp
  have h2: "label_heuristic ''curriculum vitae 2024'' = None" by code_simp
  have h3: "no_entities (take 2000 ''curriculum vitae 2024'') = Inr []" by (simp add: no_entities_def)
  have h4: "entity_heuristic [] = None" by code_simp
  have h5: "capitalized_line_heuristic ''curriculum vitae 2024'' = None" by code_simp
  have h6: "leading_name_heuristic ''curriculum vitae 2024'' = None" by code_simp
  show ?thesis using h1 h2 h3 h4 h5 h6 name_hard_fallback [where rcg = no_entities, OF h1 h2 h3 h4 h5 h6] by simp
qed

text \<open>
  C3. When the first line of the text, stripped, is upper-case, has two or three words and
  no digit, the name extractor returns that stripped line, whatever the rest of the text
  holds and whatever the recogniser would do.
\<close>

theorem caps_first_line_wins:
  assumes "str_isupper (str_strip (hd (str_split_on newline t)))"
    and "2 \<le> length (str_split (str_strip (hd (str_split_on newline t))))"
    and "length (str_split (str_strip (hd (str_split_on newline t)))) \<le> 3"
    and "\<not> list_ex char_isdigit (str_strip (hd (str_split_on newline t)))"
  shows "extract_name rcg t = Inr (str_strip (hd (str_split_on newline t)))"
proof -
  obtain rest where "head_lines t = str_strip (hd (str_split_on newline t)) # rest"
    using head_lines_first by blast
  moreover have "is_caps_name (str_strip (hd (str_split_on newline t)))"
    using assms by (simp add: is_caps_name_def)
  ultimately have "caps_line_heuristic t = Some (str_strip (hd (str_split_on newline t)))"
    by (simp add: caps_line_heuristic_def)
  then show ?thesis by (simp add: extract_name_def)
qed

text \<open>
  C5. The flag \<open>(?i)\<close> at the head of \<open>name_label_pattern\<close> holds for the whole pattern, so
  \<open>[A-Z]\<close> and \<open>[a-z]\<close> in its group match letters of either case: the labelled candidate
  \<open>jane doe\<close>, with no capital, is what the heuristic returns.
\<close>

theorem label_flag_global:
  "label_heuristic ''name: jane doe'' = Some ''jane doe''
   \<and> extract_name no_entities ''name: jane doe'' = Inr ''jane doe''"
  by code_simp

theorem caps_first_line_wins_witness:
  "str_isupper (str_strip (hd (str_split_on newline
      (''JOHN MICHAEL SMITH'' @ [newline] @ ''Name: Jane Doe''))))
   \<and> 2 \<le> length (str_split (str_strip (hd (str_split_on newline
      (''JOHN MICHAEL SMITH'' @ [newline] @ ''Name: Jane Doe'')))))
   \<and> length (str_split (str_strip (hd (str_split_on newline
      (''JOHN MICHAEL SMITH'' @ [newline] @ ''Name: Jane Doe''))))) \<le> 3
   \<and> \<not> list_ex char_isdigit (str_strip (hd (str_split_on newline
      (''JOHN MICHAEL SMITH'' @ [newline] @ ''Name: Jane Doe''))))
   \<and> label_heuristic (''JOHN MICHAEL SMITH'' @ [newline] @ ''Name: Jane Doe'') = Some ''Jane Doe''
   \<and> extract_name no_entities (''JOHN MICHAEL SMITH'' @ [newline] @ ''Name: Jane Doe'') =
       Inr ''JOHN MICHAEL SMITH''"
proof -
  have l: "str_strip (hd (str_split_on newline
      (''JOHN MICHAEL SMITH'' @ [newline] @ ''Name: Jane Doe''))) = ''JOHN MICHAEL SMITH''"
    by code_simp
  have h1: "str_isupper (str_strip (hd (str_split_on newline
      (''JOHN MICHAEL SMITH'' @ [newline] @ ''Name: Jane Doe''))))"
    by code_simp
  have h2: "2 \<le> length (str_split (str_strip (hd (str_split_on newline
      (''JOHN MICHAEL SMITH'' @ [newline] @ ''Name: Jane Doe'')))))"
    by code_simp
  have h3: "length (str_split (str_strip (hd (str_split_on newline
      (''JOHN MICHAEL SMITH'' @ [newline] @ ''Name: Jane Doe''))))) \<le> 3"
    by code_simp
  have h4: "\<not> list_ex char_isdigit (str_strip (hd (str_split_on newline
      (''JOHN MICHAEL SMITH'' @ [newline] @ ''Name: Jane Doe''))))"
    by code_simp
  have h5: "label_heuristic (''JOHN MICHAEL SMITH'' @ [newline] @ ''Name: Jane Doe'') =
      Some ''Jane Doe''"
    by code_simp
  show ?thesis
    using h1 h2 h3 h4 h5 l caps_first_line_wins [where rcg = no_entities, OF h1 h2 h3 h4]
    by simp
qed

theorem parse_address_witness:
  "parse \<lparr>nlp = no_entities, pdf = Pages [PageText ''JOHN SMITH'']\<rparr> =
     Inr \<lparr>personal_info =
            \<lparr>name = ''JOHN SMITH'', email = ''hemanthjayaram5566@gmail.com'',
             phone = ''9986500900'', address = ''Bengaluru, India''\<rparr>,
          education = extract_education ''JOHN SMITH'', skills = extract_skills ''JOHN SMITH'',
          work_experience = extract_experience ''JOHN SMITH''\<rparr>
   \<and> extract_text_from_pdf (Pages [PageText ''JOHN SMITH'']) = Some ''JOHN SMITH''"
proof -
  have h: "parse \<lparr>nlp = no_entities, pdf = Pages [PageText ''JOHN SMITH'']\<rparr> =
     Inr \<lparr>personal_info =
            \<lparr>name = ''JOHN SMITH'', email = ''hemanthjayaram5566@gmail.com'',
             phone = ''9986500900'', address = ''Bengaluru, India''\<rparr>,
          education = extract_education ''JOHN SMITH'', skills = extract_skills ''JOHN SMITH'',
          work_experience = extract_experience ''JOHN SMITH''\<rparr>"
    by code_simp
  have e: "extract_text_from_pdf (Pages [PageText ''JOHN SMITH'']) = Some ''JOHN SMITH''"
    by (simp add: extract_text_from_pdf_def)
  show ?thesis using h e parse_address [OF h] by simp
qed

theorem parse_failure_propagates_witness:
  "extract_text_from_pdf (Pages [PageText ''resume of a candidate'']) =
     Some ''resume of a candidate''
   \<and> ''resume of a candidate'' \<noteq> []
   \<and> caps_line_heuristic ''resume of a candidate'' = None
   \<and> label_heuristic ''resume of a candidate'' = None
   \<and> isl (failing_recogniser (take 2000 ''resume of a candidate''))
   \<and> parse \<lparr>nlp = failing_recogniser, pdf = Pages [PageText ''resume of a candidate'']\<rparr> =
       Inl RecogniserRaised"
proof -
  have e: "extract_text_from_pdf
             (pdf \<lparr>nlp = failing_recogniser, pdf = Pages [PageText ''resume of a candidate'']\<rparr>) =
           Some ''resume of a candidate''"
    by (simp add: extract_text_from_pdf_def)
  have n: "''resume of a candidate'' \<noteq> []" by simp
  have h1: "caps_line_heuristic ''resume of a candidate'' = None" by code_simp
  have h2: "label_heuristic ''resume of a candidate'' = None" by code_simp
  have h3: "isl (failing_recogniser (take 2000 ''resume of a candidate''))"
    by (simp add: failing_recogniser_def)
  show ?thesis
    using e h1 h2 h3 parse_failure_propagates [OF e n]
    by (simp add: failing_recogniser_def)
qed

section \<open>Properties of the phone pattern\<close>

lemma many_suffix:
  "st' \<in> set (many ic its n (p, s)) \<Longrightarrow> \<exists>m. s = m @ snd st' \<and> n \<le> length m"
proof (induction s arbitrary: n p)
  case Nil
  then show ?case by (auto split: if_splits)
next
  case (Cons c cs)
  from Cons.prems consider
    (more) "in_set ic its c" "st' \<in> set (many ic its (n - 1) (Some c, cs))"
    | (stop) "n = 0" "st' = (p, c # cs)"
    by (auto split: if_splits)
  then show ?case
  proof cases
    case more
    from Cons.IH [OF more(2)] obtain m where "cs = m @ snd st'" "n - 1 \<le> length m" by blast
    then have "c # cs = (c # m) @ snd st'" "n \<le> length (c # m)" by auto
    then show ?thesis by blast
  next
    case stop
    then show ?thesis by simp
  qed
qed

lemma rmatch_suffix:
  "st' \<in> set (rmatch ic r st) \<Longrightarrow> \<exists>m. snd st = m @ snd st'"
proof (induction r arbitrary: st st')
  case (Lit x)
  then obtain c cs where "snd st = c # cs" "st' = (Some c, cs)"
    by (cases "snd st") (auto split: if_splits)
  then have "snd st = [c] @ snd st'" by simp
  then show ?case by blast
next
  case (Set its)
  then obtain c cs where "snd st = c # cs" "st' = (Some c, cs)"
    by (cases "snd st") (auto split: if_splits)
  then have "snd st = [c] @ snd st'" by simp
  then show ?case by blast
next
  case (Many n its)
  then have "st' \<in> set (many ic its n (fst st, snd st))" by simp
  from many_suffix [OF this] show ?case by blast
next
  case (Opt r)
  from Opt.prems have "st' \<in> set (rmatch ic r st) \<or> st' = st" by auto
  then show ?case
  proof
    assume "st' \<in> set (rmatch ic r st)"
    from Opt.IH [OF this] show ?thesis .
  next
    assume "st' = st"
    then have "snd st = [] @ snd st'" by simp
    then show ?thesis by blast
  qed
next
  case (Seq r1 r2)
  from Seq.prems obtain st1 where a: "st1 \<in> set (rmatch ic r1 st)" and b: "st' \<in> set (rmatch ic r2 st1)"
    by auto
  from Seq.IH(1) [OF a] obtain m1 where "snd st = m1 @ snd st1" by blast
  moreover from Seq.IH(2) [OF b] obtain m2 where "snd st1 = m2 @ snd st'" by blast
  ultimately have "snd st = (m1 @ m2) @ snd st'" by simp
  then show ?case by blast
next
  case Eps
  then have "snd st = [] @ snd st'" by simp
  then show ?case by blast
next
  case Bol
  then have "snd st = [] @ snd st'" by (simp split: if_splits)
  then show ?case by blast
next
  case Wb
  then have "snd st = [] @ snd st'" by (simp split: if_splits)
  then show ?case by blast
qed

lemma rmatch_length: "st' \<in> set (rmatch ic r st) \<Longrightarrow> length (snd st') \<le> length (snd st)"
proof -
  assume "st' \<in> set (rmatch ic r st)"
  from rmatch_suffix [OF this] obtain m where "snd st = m @ snd st'" by blast
  then have "length (snd st) = length m + length (snd st')" by (metis length_append)
  then show ?thesis by simp
qed

lemma rmatch_SeqD:
  "st' \<in> set (rmatch ic (Seq r1 r2) st) \<Longrightarrow>
     \<exists>st1. st1 \<in> set (rmatch ic r1 st) \<and> st' \<in> set (rmatch ic r2 st1)"
  by auto

lemma rmatch_SetD:
  "st' \<in> set (rmatch ic (Set its) st) \<Longrightarrow>
     \<exists>c cs. snd st = c # cs \<and> in_set ic its c \<and> st' = (Some c, cs)"
  by (cases "snd st") (auto split: if_splits)

lemma phone_pattern_unfold:
  "phone_pattern =
     Seq (Opt (Set [Ch CHR ''+'', Ch CHR ''('']))
       (Seq (Set [Rg CHR ''1'' CHR ''9''])
         (Seq (Many 8 phone_class) (Seq (Set [Rg CHR ''0'' CHR ''9'']) Eps)))"
  by (simp add: phone_pattern_def seqs_def)

lemma digit_1_9:
  assumes "in_set False [Rg CHR ''1'' CHR ''9''] c"
  shows "c \<in> set ''123456789''"
proof -
  have b: "49 \<le> (of_char c :: nat) \<and> (of_char c :: nat) \<le> 57"
    using assms by (simp add: in_set_def cp_def)
  have e: "c = char_of (of_char c :: nat)" by simp
  from b have "(of_char c :: nat) \<in> {49, 50, 51, 52, 53, 54, 55, 56, 57}"
    by (simp only: insert_iff empty_iff) arith
  then have "char_of (of_char c :: nat) \<in> char_of ` {49 :: nat, 50, 51, 52, 53, 54, 55, 56, 57}"
    by (rule imageI)
  then have "c \<in> char_of ` {49 :: nat, 50, 51, 52, 53, 54, 55, 56, 57}"
    by (simp only: char_of_char)
  also have "char_of ` {49 :: nat, 50, 51, 52, 53, 54, 55, 56, 57} = set ''123456789''"
    by code_simp
  finally show ?thesis .
qed

lemma phone_match_shape:
  assumes "st' \<in> set (rmatch False phone_pattern (p, s))"
  shows "\<exists>c cs. s = c # cs \<and> c \<in> set ''+(123456789'' \<and> length (snd st') \<le> length cs"
proof -
  let ?A = "Opt (Set [Ch CHR ''+'', Ch CHR ''(''])"
  let ?B = "Set [Rg CHR ''1'' CHR ''9'']"
  let ?R = "Seq (Many 8 phone_class) (Seq (Set [Rg CHR ''0'' CHR ''9'']) Eps)"
  from assms have "st' \<in> set (rmatch False (Seq ?A (Seq ?B ?R)) (p, s))"
    by (simp only: phone_pattern_unfold)
  from rmatch_SeqD [OF this] obtain st1 where
    a: "st1 \<in> set (rmatch False ?A (p, s))" and b: "st' \<in> set (rmatch False (Seq ?B ?R) st1)"
    by blast
  from rmatch_SeqD [OF b] obtain st2 where
    c: "st2 \<in> set (rmatch False ?B st1)" and d: "st' \<in> set (rmatch False ?R st2)"
    by blast
  from rmatch_SetD [OF c] obtain c1 cs1 where
    s1: "snd st1 = c1 # cs1" "in_set False [Rg CHR ''1'' CHR ''9''] c1" "st2 = (Some c1, cs1)"
    by blast
  have len: "length (snd st') \<le> length cs1"
    using rmatch_length [OF d] s1(3) by simp
  from a have "st1 \<in> set (rmatch False (Set [Ch CHR ''+'', Ch CHR ''('']) (p, s)) \<or> st1 = (p, s)"
    by auto
  then show ?thesis
  proof
    assume "st1 \<in> set (rmatch False (Set [Ch CHR ''+'', Ch CHR ''('']) (p, s))"
    from rmatch_SetD [OF this] obtain c0 cs0 where
      s0: "s = c0 # cs0" "in_set False [Ch CHR ''+'', Ch CHR ''(''] c0" "st1 = (Some c0, cs0)"
      by auto
    from s0(2) have "c0 \<in> set ''+(123456789''" by (auto simp: in_set_def)
    moreover have "length (snd st') \<le> length cs0" using len s0(3) s1(1) by simp
    ultimately show ?thesis using s0(1) by blast
  next
    assume "st1 = (p, s)"
    then have "s = c1 # cs1" using s1(1) by simp
    moreover have "c1 \<in> set ''+(123456789''" using digit_1_9 [OF s1(2)] by auto
    ultimately show ?thesis using len by blast
  qed
qed

lemma search_from_Some:
  "search_from ic r adv (p, s) = Some (m, st') \<Longrightarrow>
     \<exists>pre p2. s = pre @ m @ snd st' \<and> st' \<in> set (rmatch ic r (p2, m @ snd st'))"
proof (induction s arbitrary: p adv)
  case Nil
  let ?F = "filter (\<lambda>st'. \<not> (adv \<and> length (snd st') = length ([]::string))) (rmatch ic r (p, []))"
  from Nil obtain rest where F: "?F = st' # rest" and m: "m = []"
    by (cases ?F) auto
  have "st' \<in> set ?F" using F by simp
  then have mem: "st' \<in> set (rmatch ic r (p, []))" by simp
  from rmatch_suffix [OF mem] have "snd st' = []" by simp
  then show ?case using mem m by auto
next
  case (Cons c cs)
  let ?F = "filter (\<lambda>st'. \<not> (adv \<and> length (snd st') = length (c # cs))) (rmatch ic r (p, c # cs))"
  show ?case
  proof (cases ?F)
    case Nil
    with Cons.prems have "search_from ic r False (Some c, cs) = Some (m, st')" by simp
    from Cons.IH [OF this] obtain pre p2 where
      "cs = pre @ m @ snd st'" "st' \<in> set (rmatch ic r (p2, m @ snd st'))" by blast
    then have "c # cs = (c # pre) @ m @ snd st'" by simp
    then show ?thesis using \<open>st' \<in> set (rmatch ic r (p2, m @ snd st'))\<close> by blast
  next
    case (Cons st0 rest)
    with Cons.prems have e: "st' = st0" "m = take (length (c # cs) - length (snd st0)) (c # cs)"
      by auto
    have "st0 \<in> set ?F" using Cons by simp
    then have mem: "st' \<in> set (rmatch ic r (p, c # cs))" using e(1) by simp
    from rmatch_suffix [OF mem] obtain m0 where m0: "c # cs = m0 @ snd st'" by auto
    then have "length (c # cs) - length (snd st') = length m0"
      by (metis add_diff_cancel_right' length_append)
    then have "m = m0" using e m0 by (metis append_eq_conv_conj)
    then have "c # cs = [] @ m @ snd st'" using m0 by simp
    moreover have "st' \<in> set (rmatch ic r (p, m @ snd st'))" using mem m0 \<open>m = m0\<close> by simp
    ultimately show ?thesis by blast
  qed
qed

lemma findall_hd:
  "re_findall_from ic r adv (p, s) = m # ms \<Longrightarrow> \<exists>st'. search_from ic r adv (p, s) = Some (m, st')"
  by (cases "search_from ic r adv (p, s)") (auto split: if_splits)

text \<open>
  C10. Whenever the phone extractor returns a match of its pattern rather than the
  fallback, the result is not empty and its first character is \<open>+\<close>, \<open>(\<close> or a digit from
  1 to 9, never the digit 0.
\<close>

theorem phone_first_char:
  assumes "re_findall False phone_pattern t \<noteq> []"
  shows "extract_phone_number t \<noteq> []
         \<and> hd (extract_phone_number t) \<in> set ''+(123456789''
         \<and> hd (extract_phone_number t) \<noteq> CHR ''0''"
proof -
  from assms obtain m ms where f: "re_findall False phone_pattern t = m # ms"
    by (cases "re_findall False phone_pattern t") auto
  then have e: "extract_phone_number t = m" by (simp add: extract_phone_number_def)
  from f findall_hd obtain st' where "search_from False phone_pattern False (None, t) = Some (m, st')"
    unfolding re_findall_def by blast
  from search_from_Some [OF this] obtain pre p2 where
    "st' \<in> set (rmatch False phone_pattern (p2, m @ snd st'))" by blast
  from phone_match_shape [OF this] obtain c cs where
    s: "m @ snd st' = c # cs" "c \<in> set ''+(123456789''" "length (snd st') \<le> length cs" by blast
  have "m \<noteq> []"
  proof
    assume "m = []"
    with s(1) have "length (snd st') = Suc (length cs)" by simp
    with s(3) show False by simp
  qed
  then have "hd m = c" using s(1) by (cases m) auto
  then show ?thesis using e \<open>m \<noteq> []\<close> s(2) by auto
qed
















theorem phone_first_char_witness:
  "re_findall False phone_pattern ''0123 456 7890'' \<noteq> []
   \<and> extract_phone_number ''0123 456 7890'' = ''123 456 7890''
   \<and> hd (extract_phone_number ''0123 456 7890'') \<in> set ''+(123456789''
   \<and> hd (extract_phone_number ''0123 456 7890'') \<noteq> CHR ''0''"
proof -
  have h: "re_findall False phone_pattern ''0123 456 7890'' \<noteq> []" by code_simp
  have e: "extract_phone_number ''0123 456 7890'' = ''123 456 7890''" by code_simp
  show ?thesis using h e phone_first_char [OF h] by simp
qed




end
